theory Spec2Isabelle
  imports Complex_Main "HOL-Library.List_Lexorder" "HOL-Library.Char_ord"
begin

section \<open>Values exchanged with the dashboard\<close>

text \<open>
  The bot reads two JSON payloads and only ever subscripts them with string keys,
  iterates over them, compares them and uses them as dictionary keys. A parsed payload
  is a \<open>json\<close> value. \<open>JFloat\<close> carries a finite float as the rational it denotes.
  Python's parser also accepts the literals NaN, Infinity and -Infinity: \<open>JInf\<close> is an
  infinite float (\<open>JInf True\<close> the positive one) and \<open>JNaN i\<close> is a float object that
  holds NaN, \<open>i\<close> standing for the identity of the object (the parser makes a new
  object for every NaN that it reads). The identity matters because a NaN is not
  equal to itself under \<open>==\<close>, while a dict or a list still recognises the very
  object it holds. \<open>JObj\<close> lists the items of the parsed dict; a lookup takes the first
  pair with the key.
\<close>

datatype json =
    JNull
  | JBool bool
  | JInt int
  | JFloat rat
  | JNaN nat
  | JInf bool
  | JStr string
  | JArr "json list"
  | JObj "(string \<times> json) list"

text \<open>The Python exceptions that the bot's own statements can raise.\<close>

datatype error = KeyError | TypeError

fun items :: "(string \<times> 'a) list \<Rightarrow> (string \<times> 'a) list" where
  "items [] = []"
| "items ((k, v) # kvs) = (k, v) # items (filter (\<lambda>kv. fst kv \<noteq> k) kvs)"

text \<open>
  Python's \<open>==\<close> on parsed JSON: \<open>True == 1\<close>, \<open>1 == 1.0\<close>, lists are compared
  element by element and dicts as mappings, whatever the order of their items. A NaN
  is equal to nothing, itself included (\<open>x != x\<close> is True); inside a list or a dict the
  comparison of two elements first asks whether they are one object, so there a NaN
  is equal to itself and to nothing else. Two values other than NaN are equal
  exactly when their canonical forms coincide.
\<close>

primrec canon :: "json \<Rightarrow> json" where
  "canon JNull = JNull"
| "canon (JBool b) = JInt (if b then 1 else 0)"
| "canon (JInt i) = JInt i"
| "canon (JFloat r) = (if of_int \<lfloor>r\<rfloor> = r then JInt \<lfloor>r\<rfloor> else JFloat r)"
| "canon (JNaN i) = JNaN i"
| "canon (JInf b) = JInf b"
| "canon (JStr s) = JStr s"
| "canon (JArr xs) = JArr (map canon xs)"
| "canon (JObj kvs) = JObj (sort_key fst (items (map (map_prod id canon) kvs)))"

fun is_nan :: "json \<Rightarrow> bool" where
  "is_nan (JNaN i) = True"
| "is_nan _ = False"

definition py_eq :: "json \<Rightarrow> json \<Rightarrow> bool" where
  "py_eq a b = (\<not> is_nan a \<and> \<not> is_nan b \<and> canon a = canon b)"

text \<open>\<open>x[k]\<close> for a string \<open>k\<close>: only a dict can be subscripted by a string.\<close>

fun subscript :: "json \<Rightarrow> string \<Rightarrow> error + json" where
  "subscript (JObj kvs) k = (case map_of kvs k of None \<Rightarrow> Inl KeyError | Some v \<Rightarrow> Inr v)"
| "subscript _ k = Inl TypeError"

text \<open>
  \<open>d[x] = v\<close> and \<open>x in d\<close> hash \<open>x\<close>: lists and dicts are unhashable, and two keys
  are one key when they are one object or equal under \<open>==\<close>, that is, when their
  canonical forms coincide (a NaN key is found again only as the same object).
\<close>

fun dict_key :: "json \<Rightarrow> error + json" where
  "dict_key (JArr xs) = Inl TypeError"
| "dict_key (JObj kvs) = Inl TypeError"
| "dict_key x = Inr (canon x)"

text \<open>
  \<open>for x in v\<close>: a list yields its elements, a dict its keys, a string its characters;
  nothing else is iterable.
\<close>

fun py_iter :: "json \<Rightarrow> error + json list" where
  "py_iter (JArr xs) = Inr xs"
| "py_iter (JObj kvs) = Inr (map (\<lambda>kv. JStr (fst kv)) (items kvs))"
| "py_iter (JStr s) = Inr (map (\<lambda>c. JStr [c]) s)"
| "py_iter _ = Inl TypeError"

text \<open>\<open>sub in s\<close> on strings.\<close>

fun starts_with :: "string \<Rightarrow> string \<Rightarrow> bool" where
  "starts_with [] s = True"
| "starts_with (c # cs) [] = False"
| "starts_with (c # cs) (d # ds) = (c = d \<and> starts_with cs ds)"

fun str_in :: "string \<Rightarrow> string \<Rightarrow> bool" where
  "str_in sub [] = (sub = [])"
| "str_in sub (c # cs) = (starts_with sub (c # cs) \<or> str_in sub cs)"

section \<open>The remote site and the bot's state\<close>

text \<open>
  What one HTTP response shows to the bot: its status code, the final URL, the body
  as text and the result of \<open>response.json()\<close> (\<open>None\<close> when it raises ValueError).
\<close>

record response =
  status_code :: nat
  url :: string
  text_r :: string
  json_r :: "json option"

text \<open>\<open>response.ok\<close>: the status is neither a client nor a server error.\<close>

definition ok :: "response \<Rightarrow> bool" where
  "ok r = (\<not> (400 \<le> status_code r \<and> status_code r < 600))"

text \<open>
  The outcome of \<open>soup.find('input', {'name': '_token'})['value']\<close> on the login page:
  no such input (\<open>find\<close> gives None), an input without a value, or the token.
\<close>

datatype token_input = NoInput | NoValue | Token string

text \<open>The answers of the site to the four requests of one run of \<open>get_data\<close>.\<close>

record site =
  login_page :: token_input
  login_post :: response
  dashboard_get :: response
  servers_get :: response

text \<open>The site as the successive runs of \<open>get_data\<close> find it.\<close>

type_synonym world = "nat \<Rightarrow> site"

record data =
  dashboard :: json
  servers :: json

text \<open>The lines that \<open>get_data\<close> prints.\<close>

datatype printed =
    LoginSuccessful
  | LoginFailed
  | RawResponse string
  | NonJSONResponse
  | DashboardStatsError nat
  | ServersInfoError nat

text \<open>
  A message text is an f-string: literal text and formatted values. The three alerts
  are told apart by their constructor; \<open>Degraded n h\<close> is "Server **n** is currently
  **h**.", \<open>Recovered n h\<close> is "Server **n** is back **h**." and \<open>LicenseInactive\<close> is
  "License status is not active! Please check immediately.".
\<close>

datatype piece = Lit string | Val json

datatype message =
    LicenseInactive
  | Degraded json json
  | Recovered json json
  | Report "piece list"

type_synonym chat_id = int

text \<open>
  The module's globals \<open>telegram_chat_id\<close> and \<open>prev_server_statuses\<close>, together with
  what the process has done so far: the number of runs of \<open>get_data\<close>, the lines
  printed and the messages handed to \<open>send_message\<close>. The keys of
  \<open>prev_server_statuses\<close> are canonical (\<open>dict_key\<close>).
\<close>

record bot_state =
  telegram_chat_id :: chat_id
  prev_server_statuses :: "json \<rightharpoonup> json"
  fetches :: nat
  stdout :: "printed list"
  sent :: "(chat_id \<times> message) list"

definition send_message :: "chat_id \<Rightarrow> message \<Rightarrow> bot_state \<Rightarrow> bot_state" where
  "send_message chat m st = st\<lparr>sent := sent st @ [(chat, m)]\<rparr>"

section \<open>The data fetcher\<close>

text \<open>
  \<open>get_data\<close> on the answers of the site: the result (\<open>Inl\<close> an exception that
  escapes) and the lines printed. The CSRF token only travels into the POST.
\<close>

definition get_data :: "site \<Rightarrow> (error + data option) \<times> printed list" where
  "get_data s =
     (case login_page s of
        NoInput \<Rightarrow> (Inl TypeError, [])
      | NoValue \<Rightarrow> (Inl KeyError, [])
      | Token csrf_token \<Rightarrow>
          (let response = login_post s in
           if ok response \<and> str_in ''dashboard'' (url response) then
             (let dashboard_response = dashboard_get s;
                  servers_response = servers_get s;
                  dashboard_data =
                    (if status_code dashboard_response = 200 then
                       (case json_r dashboard_response of
                          Some j \<Rightarrow> (j, [])
                        | None \<Rightarrow> (JObj [], [NonJSONResponse, RawResponse (text_r dashboard_response)]))
                     else (JObj [], [DashboardStatsError (status_code dashboard_response)]));
                  servers_data =
                    (if status_code servers_response = 200 then
                       (case json_r servers_response of
                          Some j \<Rightarrow> (j, [])
                        | None \<Rightarrow> (JArr [], [NonJSONResponse, RawResponse (text_r servers_response)]))
                     else (JArr [], [ServersInfoError (status_code servers_response)]))
              in (Inr (Some \<lparr>dashboard = fst dashboard_data, servers = fst servers_data\<rparr>),
                  [LoginSuccessful] @ snd dashboard_data @ snd servers_data))
           else (Inr None, [LoginFailed, RawResponse (text_r response)])))"

text \<open>A call of \<open>get_data()\<close>: it meets the next state of the site and prints.\<close>

definition call_get_data :: "world \<Rightarrow> bot_state \<Rightarrow> (error + data option) \<times> bot_state" where
  "call_get_data w st =
     (case get_data (w (fetches st)) of
        (r, out) \<Rightarrow> (r, st\<lparr>fetches := Suc (fetches st), stdout := stdout st @ out\<rparr>))"

section \<open>The formatter\<close>

text \<open>
  An f-string over one value: literal text and replacement fields \<open>{x['a']['b']}\<close>,
  evaluated from left to right; the first failing subscript raises.
\<close>

datatype part = Text string | Field "string list"

fun path :: "json \<Rightarrow> string list \<Rightarrow> error + json" where
  "path x [] = Inr x"
| "path x (k # ks) = (case subscript x k of Inl e \<Rightarrow> Inl e | Inr v \<Rightarrow> path v ks)"

fun fstring :: "json \<Rightarrow> part list \<Rightarrow> error + piece list" where
  "fstring x [] = Inr []"
| "fstring x (Text t # ps) =
     (case fstring x ps of Inl e \<Rightarrow> Inl e | Inr r \<Rightarrow> Inr (Lit t # r))"
| "fstring x (Field p # ps) =
     (case path x p of
        Inl e \<Rightarrow> Inl e
      | Inr v \<Rightarrow> (case fstring x ps of Inl e \<Rightarrow> Inl e | Inr r \<Rightarrow> Inr (Val v # r)))"

definition format_dashboard_stats :: "json \<Rightarrow> error + piece list" where
  "format_dashboard_stats dashboard_stats =
     fstring dashboard_stats
       [Text ''**Dashboard Stats**\<newline>'',
        Text ''- Total Connections: '', Field [''connections'', ''total''], Text ''\<newline>'',
        Text ''- Total Streams: '', Field [''streams'', ''total''], Text ''\<newline>'',
        Text ''- Total Users: '', Field [''users'', ''total''], Text ''\<newline>'',
        Text ''- License Status: '', Field [''license'', ''status''], Text ''\<newline>'',
        Text ''- License Product Name: '', Field [''license'', ''product_name''], Text ''\<newline>'']"

definition server_entry :: "part list" where
  "server_entry =
     [Text ''\<newline>**'', Field [''name''], Text ''**\<newline>'',
      Text ''- IP: '', Field [''ip''], Text ''\<newline>'',
      Text ''- Domain: '', Field [''domain''], Text ''\<newline>'',
      Text ''- Status: '', Field [''health_status''], Text ''\<newline>'',
      Text ''- Live Streams: '', Field [''live_streams''], Text ''\<newline>'',
      Text ''- Online Streams: '', Field [''online_streams''], Text ''\<newline>'',
      Text ''- Load (1/5/15): '', Field [''load_avg_1''], Text ''/'', Field [''load_avg_5''],
      Text ''/'', Field [''load_avg_15''], Text ''\<newline>'',
      Text ''- Connected Clients: '', Field [''connected_clients''], Text ''\<newline>'',
      Text ''- Version: '', Field [''version''], Text ''\<newline>'']"

fun format_servers_loop :: "json list \<Rightarrow> piece list \<Rightarrow> error + piece list" where
  "format_servers_loop [] formatted_servers = Inr formatted_servers"
| "format_servers_loop (server # rest) formatted_servers =
     (case fstring server server_entry of
        Inl e \<Rightarrow> Inl e
      | Inr entry \<Rightarrow> format_servers_loop rest (formatted_servers @ entry))"

definition format_servers_info :: "json \<Rightarrow> error + piece list" where
  "format_servers_info servers_info =
     (case py_iter servers_info of
        Inl e \<Rightarrow> Inl e
      | Inr xs \<Rightarrow> format_servers_loop xs [Lit ''\<newline>**Servers Info**\<newline>''])"

section \<open>The handlers\<close>

text \<open>The reply to /status, sent to the chat the command came from.\<close>

definition send_report :: "chat_id \<Rightarrow> world \<Rightarrow> bot_state \<Rightarrow> (error + unit) \<times> bot_state" where
  "send_report effective_chat w st =
     (case call_get_data w st of
        (Inl e, st1) \<Rightarrow> (Inl e, st1)
      | (Inr None, st1) \<Rightarrow> (Inr (), st1)
      | (Inr (Some d), st1) \<Rightarrow>
          (case format_dashboard_stats (dashboard d) of
             Inl e \<Rightarrow> (Inl e, st1)
           | Inr dashboard_stats \<Rightarrow>
               (case format_servers_info (servers d) of
                  Inl e \<Rightarrow> (Inl e, st1)
                | Inr servers_info \<Rightarrow>
                    (Inr (), send_message effective_chat (Report (dashboard_stats @ servers_info)) st1))))"

definition notify_if_license_inactive :: "world \<Rightarrow> bot_state \<Rightarrow> (error + unit) \<times> bot_state" where
  "notify_if_license_inactive w st =
     (case call_get_data w st of
        (Inl e, st1) \<Rightarrow> (Inl e, st1)
      | (Inr None, st1) \<Rightarrow> (Inr (), st1)
      | (Inr (Some d), st1) \<Rightarrow>
          (case path (dashboard d) [''license'', ''status''] of
             Inl e \<Rightarrow> (Inl e, st1)
           | Inr status \<Rightarrow>
               if \<not> py_eq status (JStr ''Active'')
               then (Inr (), send_message (telegram_chat_id st1) LicenseInactive st1)
               else (Inr (), st1)))"

text \<open>
  The loop of \<open>notify_server_status\<close>. It reads \<open>prev_server_statuses\<close> from the state,
  which it leaves alone, and builds \<open>current_statuses\<close>. Messages sent before an
  exception stay sent.
\<close>

fun status_loop ::
  "json list \<Rightarrow> (json \<rightharpoonup> json) \<Rightarrow> bot_state \<Rightarrow> (error + (json \<rightharpoonup> json)) \<times> bot_state" where
  "status_loop [] current_statuses st = (Inr current_statuses, st)"
| "status_loop (server # rest) current_statuses st =
     (case subscript server ''name'' of
        Inl e \<Rightarrow> (Inl e, st)
      | Inr server_name \<Rightarrow>
          (case subscript server ''health_status'' of
             Inl e \<Rightarrow> (Inl e, st)
           | Inr health_status \<Rightarrow>
               (case dict_key server_name of
                  Inl e \<Rightarrow> (Inl e, st)
                | Inr k \<Rightarrow>
                    status_loop rest (current_statuses(k \<mapsto> health_status))
                      (case prev_server_statuses st k of
                         None \<Rightarrow> st
                       | Some previous \<Rightarrow>
                           if \<not> py_eq previous health_status then
                             (if \<not> py_eq health_status (JStr ''online'')
                              then send_message (telegram_chat_id st) (Degraded server_name health_status) st
                              else if py_eq health_status (JStr ''online'')
                              then send_message (telegram_chat_id st) (Recovered server_name health_status) st
                              else st)
                           else st))))"

definition notify_server_status :: "world \<Rightarrow> bot_state \<Rightarrow> (error + unit) \<times> bot_state" where
  "notify_server_status w st =
     (case call_get_data w st of
        (Inl e, st1) \<Rightarrow> (Inl e, st1)
      | (Inr None, st1) \<Rightarrow> (Inr (), st1)
      | (Inr (Some d), st1) \<Rightarrow>
          (case py_iter (servers d) of
             Inl e \<Rightarrow> (Inl e, st1)
           | Inr xs \<Rightarrow>
               (case status_loop xs Map.empty st1 of
                  (Inl e, st2) \<Rightarrow> (Inl e, st2)
                | (Inr current_statuses, st2) \<Rightarrow>
                    (Inr (), st2\<lparr>prev_server_statuses := current_statuses\<rparr>))))"

definition poll_status :: "world \<Rightarrow> bot_state \<Rightarrow> (error + unit) \<times> bot_state" where
  "poll_status w st =
     (case notify_if_license_inactive w st of
        (Inl e, st1) \<Rightarrow> (Inl e, st1)
      | (Inr u, st1) \<Rightarrow> notify_server_status w st1)"

text \<open>
  \<open>run_repeating\<close>: the job queue runs \<open>poll_status\<close> at every tick, on the state the
  previous tick left; an exception ends the tick in which it is raised.
\<close>

fun run_repeating :: "nat \<Rightarrow> world \<Rightarrow> bot_state \<Rightarrow> bot_state" where
  "run_repeating 0 w st = st"
| "run_repeating (Suc n) w st = run_repeating n w (snd (poll_status w st))"

section \<open>Vocabulary of the specification\<close>

text \<open>
  A server record, as the loop of \<open>notify_server_status\<close> needs it: a dict with a
  hashable \<open>name\<close> and a \<open>health_status\<close>. \<open>name_of\<close> and \<open>health_of\<close> read the two
  fields of such a record.
\<close>

definition server_record :: "json \<Rightarrow> bool" where
  "server_record server =
     ((case subscript server ''name'' of
         Inl e \<Rightarrow> False
       | Inr n \<Rightarrow> (case dict_key n of Inl e \<Rightarrow> False | Inr k \<Rightarrow> True)) \<and>
      (case subscript server ''health_status'' of Inl e \<Rightarrow> False | Inr h \<Rightarrow> True))"

definition name_of :: "json \<Rightarrow> json" where
  "name_of server = (case subscript server ''name'' of Inl e \<Rightarrow> JNull | Inr n \<Rightarrow> n)"

definition health_of :: "json \<Rightarrow> json" where
  "health_of server =
     (case subscript server ''health_status'' of Inl e \<Rightarrow> JNull | Inr h \<Rightarrow> h)"

text \<open>
  The rule of the Status Differ in the words of the specification: the alerts that one
  server of \<open>current\<close> calls for, given the previous StatusMap.
\<close>

definition spec_alerts :: "(json \<rightharpoonup> json) \<Rightarrow> json \<Rightarrow> message list" where
  "spec_alerts previous server =
     (case previous (canon (name_of server)) of
        None \<Rightarrow> []
      | Some old \<Rightarrow>
          if py_eq old (health_of server) then []
          else if py_eq (health_of server) (JStr ''online'')
          then [Recovered (name_of server) (health_of server)]
          else [Degraded (name_of server) (health_of server)])"

definition record_status :: "json \<Rightarrow> (json \<rightharpoonup> json) \<Rightarrow> (json \<rightharpoonup> json)" where
  "record_status server m = m(canon (name_of server) \<mapsto> health_of server)"

text \<open>The messages sent between two states of the process.\<close>

definition emitted :: "bot_state \<Rightarrow> bot_state \<Rightarrow> (chat_id \<times> message) list" where
  "emitted st st' = drop (length (sent st)) (sent st')"

definition license_alerts :: "bot_state \<Rightarrow> nat" where
  "license_alerts st = length (filter (\<lambda>cm. snd cm = LicenseInactive) (sent st))"

text \<open>Login succeeds: the condition of \<open>get_data\<close> on the answer to the POST.\<close>

definition login_successful :: "site \<Rightarrow> bool" where
  "login_successful s = (ok (login_post s) \<and> str_in ''dashboard'' (url (login_post s)))"

text \<open>A GET returns well-formed structured data: status 200 and a JSON body.\<close>

definition well_formed :: "response \<Rightarrow> bool" where
  "well_formed r = (status_code r = 200 \<and> json_r r \<noteq> None)"

text \<open>The payload of a GET, or the default that \<open>get_data\<close> puts in its place.\<close>

definition payload :: "response \<Rightarrow> json \<Rightarrow> json" where
  "payload r dflt =
     (if status_code r = 200 then (case json_r r of Some j \<Rightarrow> j | None \<Rightarrow> dflt) else dflt)"


text \<open>The license status that a run of \<open>get_data\<close> on the site brings back, if any.\<close>

definition license_status :: "site \<Rightarrow> json option" where
  "license_status s =
     (case fst (get_data s) of
        Inr (Some d) \<Rightarrow>
          (case path (dashboard d) [''license'', ''status''] of
             Inl e \<Rightarrow> None
           | Inr status \<Rightarrow> Some status)
      | _ \<Rightarrow> None)"

definition license_not_active :: "site \<Rightarrow> bool" where
  "license_not_active s =
     (case license_status s of None \<Rightarrow> False | Some status \<Rightarrow> \<not> py_eq status (JStr ''Active''))"

section \<open>Sample sites and states\<close>

definition server :: "string \<Rightarrow> string \<Rightarrow> json" where
  "server n h =
     JObj [(''name'', JStr n), (''ip'', JStr ''10.0.0.1''), (''domain'', JStr ''a.example''),
           (''health_status'', JStr h), (''live_streams'', JInt 3), (''online_streams'', JInt 2),
           (''load_avg_1'', JFloat (1 / 2)), (''load_avg_5'', JFloat (3 / 4)),
           (''load_avg_15'', JInt 1), (''connected_clients'', JInt 12),
           (''version'', JStr ''1.0'')]"

definition stats :: "string \<Rightarrow> json" where
  "stats license =
     JObj [(''connections'', JObj [(''total'', JInt 12)]),
           (''streams'', JObj [(''total'', JInt 3)]),
           (''users'', JObj [(''total'', JInt 40)]),
           (''license'', JObj [(''status'', JStr license), (''product_name'', JStr ''Panel'')])]"

definition answer :: "nat \<Rightarrow> string \<Rightarrow> json option \<Rightarrow> response" where
  "answer code u j = \<lparr>status_code = code, url = u, text_r = ''body'', json_r = j\<rparr>"

text \<open>A site that lets the bot in and answers both GETs as given.\<close>

definition site_in :: "response \<Rightarrow> response \<Rightarrow> site" where
  "site_in d s =
     \<lparr>login_page = Token ''csrf'', login_post = answer 200 ''http://panel/dashboard'' None,
      dashboard_get = d, servers_get = s\<rparr>"

text \<open>A site in good health, with the given license status and servers.\<close>

definition site_up :: "string \<Rightarrow> json list \<Rightarrow> site" where
  "site_up license xs =
     site_in (answer 200 ''http://panel/api/dashboard-stats'' (Some (stats license)))
             (answer 200 ''http://panel/api/servers/index'' (Some (JArr xs)))"

text \<open>A site that sends the bot back to the login form.\<close>

definition site_refusing :: site where
  "site_refusing =
     \<lparr>login_page = Token ''csrf'', login_post = answer 200 ''http://panel/login'' None,
      dashboard_get = answer 401 ''http://panel/login'' None,
      servers_get = answer 401 ''http://panel/login'' None\<rparr>"

text \<open>A site that gives the same answers at every run of \<open>get_data\<close>.\<close>

definition always :: "site \<Rightarrow> world" where
  "always s = (\<lambda>n. s)"


text \<open>The state at start-up (\<open>prev_server_statuses = {}\<close>), and one after a poll.\<close>

definition initial :: bot_state where
  "initial =
     \<lparr>telegram_chat_id = 7, prev_server_statuses = Map.empty, fetches = 0, stdout = [],
      sent = []\<rparr>"

definition watching :: "(json \<rightharpoonup> json) \<Rightarrow> bot_state" where
  "watching m = initial\<lparr>prev_server_statuses := m\<rparr>"

section \<open>Facts about the operations\<close>

lemma dict_key_Inr: "dict_key n = Inr k \<Longrightarrow> k = canon n"
  by (cases n) auto

lemma server_recordD:
  assumes "server_record s"
  shows "subscript s ''name'' = Inr (name_of s)"
    and "subscript s ''health_status'' = Inr (health_of s)"
    and "dict_key (name_of s) = Inr (canon (name_of s))"
  using assms
  by (auto simp: server_record_def name_of_def health_of_def split: sum.splits
      dest: dict_key_Inr)

lemma send_message_simps [simp]:
  "prev_server_statuses (send_message c m st) = prev_server_statuses st"
  "telegram_chat_id (send_message c m st) = telegram_chat_id st"
  "fetches (send_message c m st) = fetches st"
  "stdout (send_message c m st) = stdout st"
  "sent (send_message c m st) = sent st @ [(c, m)]"
  by (simp_all add: send_message_def)

lemma call_get_data_simps [simp]:
  "fst (call_get_data w st) = fst (get_data (w (fetches st)))"
  "prev_server_statuses (snd (call_get_data w st)) = prev_server_statuses st"
  "telegram_chat_id (snd (call_get_data w st)) = telegram_chat_id st"
  "fetches (snd (call_get_data w st)) = Suc (fetches st)"
  "stdout (snd (call_get_data w st)) = stdout st @ snd (get_data (w (fetches st)))"
  "sent (snd (call_get_data w st)) = sent st"
  by (simp_all add: call_get_data_def split: prod.splits)

text \<open>On server records the loop never raises; it sends what the rule asks for.\<close>

lemma status_loop_records:
  "list_all server_record xs \<Longrightarrow>
   status_loop xs cur st =
     (Inr (fold record_status xs cur),
      st\<lparr>sent := sent st @
        map (Pair (telegram_chat_id st))
          (concat (map (spec_alerts (prev_server_statuses st)) xs))\<rparr>)"
proof (induction xs arbitrary: cur st)
  case Nil
  then show ?case by simp
next
  case (Cons s xs)
  then have s: "server_record s" and xs: "list_all server_record xs" by simp_all
  note d = server_recordD [OF s]
  show ?case
    by (simp add: d Cons.IH [OF xs] record_status_def spec_alerts_def send_message_def
        split: option.splits)
qed

text \<open>A loop that comes to its end has met server records only.\<close>

lemma status_loop_Inr:
  "fst (status_loop xs cur st) = Inr m \<Longrightarrow> list_all server_record xs"
proof (induction xs arbitrary: cur st)
  case Nil
  then show ?case by simp
next
  case (Cons s xs)
  from Cons.prems have s: "server_record s"
    by (auto simp: server_record_def split: sum.splits)
  note d = server_recordD [OF s]
  from Cons.prems show ?case
    using s Cons.IH by (simp add: d)
qed

lemma fold_record_status_dom:
  "dom (fold record_status xs m) = dom m \<union> (\<lambda>s. canon (name_of s)) ` set xs"
  by (induction xs arbitrary: m) (auto simp: record_status_def)

lemma fold_record_status_last:
  "s \<in> set xs \<Longrightarrow>
   fold record_status xs m (canon (name_of s)) =
     Some (health_of (last (filter (\<lambda>t. canon (name_of t) = canon (name_of s)) xs)))"
proof (induction xs arbitrary: m rule: rev_induct)
  case Nil
  then show ?case by simp
next
  case (snoc x xs)
  then show ?case by (auto simp: record_status_def)
qed

lemma notify_server_status_records:
  assumes "fst (get_data (w (fetches st))) = Inr (Some d)"
    and "py_iter (servers d) = Inr current"
    and "list_all server_record current"
  shows "notify_server_status w st =
     (Inr (), (snd (call_get_data w st))
        \<lparr>sent := sent st @ map (Pair (telegram_chat_id st))
             (concat (map (spec_alerts (prev_server_statuses st)) current)),
         prev_server_statuses := fold record_status current Map.empty\<rparr>)"
proof -
  obtain r st1 where c: "call_get_data w st = (r, st1)" by (cases "call_get_data w st")
  from c have r: "r = Inr (Some d)" using assms(1) call_get_data_simps(1) [of w st] by simp
  from c have st1: "st1 = snd (call_get_data w st)" by simp
  show ?thesis
    unfolding notify_server_status_def c r
    by (simp add: assms(2) status_loop_records [OF assms(3)] st1)
qed

lemma spec_alerts_same:
  "previous (canon (name_of s)) = Some old \<Longrightarrow> py_eq old (health_of s) \<Longrightarrow>
   spec_alerts previous s = []"
  by (simp add: spec_alerts_def)

lemma spec_alerts_cases:
  "m \<in> set (spec_alerts previous s) \<Longrightarrow>
   m = Degraded (name_of s) (health_of s) \<or> m = Recovered (name_of s) (health_of s)"
  by (auto simp: spec_alerts_def split: option.splits if_splits)

lemma spec_alerts_empty: "spec_alerts Map.empty s = []"
  by (simp add: spec_alerts_def)

lemma notify_server_status_Inr:
  assumes "fst (get_data (w (fetches st))) = Inr (Some d)"
    and "py_iter (servers d) = Inr current"
    and "fst (notify_server_status w st) = Inr ()"
  shows "list_all server_record current"
proof -
  obtain r st1 where c: "call_get_data w st = (r, st1)" by (cases "call_get_data w st")
  from c have r: "r = Inr (Some d)" using assms(1) call_get_data_simps(1) [of w st] by simp
  obtain q st2 where l: "status_loop current Map.empty st1 = (q, st2)"
    by (cases "status_loop current Map.empty st1")
  from assms(3) obtain m where "q = Inr m"
    unfolding notify_server_status_def c r by (cases q) (simp_all add: assms(2) l)
  with l have "fst (status_loop current Map.empty st1) = Inr m" by simp
  then show ?thesis by (rule status_loop_Inr)
qed

lemma license_alerts_send [simp]:
  "license_alerts (send_message c m st) = license_alerts st + (if m = LicenseInactive then 1 else 0)"
  by (simp add: license_alerts_def)

lemma license_alerts_call_get_data [simp]:
  "license_alerts (snd (call_get_data w st)) = license_alerts st"
  by (simp add: license_alerts_def)

lemma license_alerts_prev [simp]:
  "license_alerts (st\<lparr>prev_server_statuses := m\<rparr>) = license_alerts st"
  by (simp add: license_alerts_def)

lemma status_loop_frame:
  "fetches (snd (status_loop xs cur st)) = fetches st \<and>
   stdout (snd (status_loop xs cur st)) = stdout st \<and>
   telegram_chat_id (snd (status_loop xs cur st)) = telegram_chat_id st \<and>
   prev_server_statuses (snd (status_loop xs cur st)) = prev_server_statuses st \<and>
   license_alerts (snd (status_loop xs cur st)) = license_alerts st"
proof (induction xs arbitrary: cur st)
  case Nil
  show ?case by simp
next
  case (Cons s xs)
  show ?case
  proof (cases "subscript s ''name''")
    case (Inl e)
    then show ?thesis by simp
  next
    case n: (Inr server_name)
    show ?thesis
    proof (cases "subscript s ''health_status''")
      case (Inl e)
      then show ?thesis by (simp add: n)
    next
      case h: (Inr health_status)
      show ?thesis
      proof (cases "dict_key server_name")
        case (Inl e)
        then show ?thesis by (simp add: n h)
      next
        case k: (Inr k)
        define st' where "st' =
          (case prev_server_statuses st k of
             None \<Rightarrow> st
           | Some previous \<Rightarrow>
               if \<not> py_eq previous health_status then
                 (if \<not> py_eq health_status (JStr ''online'')
                  then send_message (telegram_chat_id st) (Degraded server_name health_status) st
                  else if py_eq health_status (JStr ''online'')
                  then send_message (telegram_chat_id st) (Recovered server_name health_status) st
                  else st)
               else st)"
        have f: "fetches st' = fetches st \<and> stdout st' = stdout st \<and>
            telegram_chat_id st' = telegram_chat_id st \<and>
            prev_server_statuses st' = prev_server_statuses st \<and>
            license_alerts st' = license_alerts st"
          by (simp add: st'_def split: option.splits)
        define cur' where "cur' = cur(k \<mapsto> health_status)"
        have e: "status_loop (s # xs) cur st = status_loop xs cur' st'"
          unfolding st'_def cur'_def by (simp only: status_loop.simps n h k sum.case)
        from Cons.IH [of cur' st'] f show ?thesis
          unfolding e by simp
      qed
    qed
  qed
qed

lemma notify_server_status_frame:
  "fetches (snd (notify_server_status w st)) = Suc (fetches st) \<and>
   telegram_chat_id (snd (notify_server_status w st)) = telegram_chat_id st \<and>
   license_alerts (snd (notify_server_status w st)) = license_alerts st"
proof -
  obtain r st1 where c: "call_get_data w st = (r, st1)" by (cases "call_get_data w st")
  then have "st1 = snd (call_get_data w st)" by simp
  then have g: "fetches st1 = Suc (fetches st)" "telegram_chat_id st1 = telegram_chat_id st"
    "license_alerts st1 = license_alerts st"
    by simp_all
  show ?thesis
  proof (cases r)
    case (Inl e)
    then show ?thesis unfolding notify_server_status_def c by (simp add: g)
  next
    case (Inr o1)
    show ?thesis
    proof (cases o1)
      case None
      then show ?thesis unfolding notify_server_status_def c Inr by (simp add: g)
    next
      case (Some d)
      show ?thesis
      proof (cases "py_iter (servers d)")
        case (Inl e)
        then show ?thesis unfolding notify_server_status_def c Inr Some by (simp add: g)
      next
        case (Inr xs)
        obtain q st2 where l: "status_loop xs Map.empty st1 = (q, st2)"
          by (cases "status_loop xs Map.empty st1")
        from status_loop_frame [of xs Map.empty st1] l
        have f: "fetches st2 = fetches st1" "telegram_chat_id st2 = telegram_chat_id st1"
          "license_alerts st2 = license_alerts st1"
          by simp_all
        show ?thesis
          unfolding notify_server_status_def c \<open>r = Inr o1\<close> Some
          by (cases q) (simp_all add: Inr l f g)
      qed
    qed
  qed
qed


lemma notify_if_license_inactive_alert:
  assumes "license_not_active (w (fetches st))"
  shows "notify_if_license_inactive w st =
    (Inr (), send_message (telegram_chat_id st) LicenseInactive (snd (call_get_data w st)))"
proof -
  obtain r st1 where c: "call_get_data w st = (r, st1)" by (cases "call_get_data w st")
  then have st1: "st1 = snd (call_get_data w st)" and r: "r = fst (get_data (w (fetches st)))"
    using call_get_data_simps(1) [of w st] by simp_all
  from assms obtain d status where d: "r = Inr (Some d)"
    and p: "path (dashboard d) [''license'', ''status''] = Inr status"
    and n: "\<not> py_eq status (JStr ''Active'')"
    unfolding license_not_active_def license_status_def r
    by (auto split: sum.splits option.splits)
  show ?thesis
    unfolding notify_if_license_inactive_def c d
    using p n by (simp add: st1)
qed

lemma poll_status_license:
  assumes "license_not_active (w (fetches st))"
  shows "fetches (snd (poll_status w st)) = fetches st + 2 \<and>
         license_alerts (snd (poll_status w st)) = Suc (license_alerts st)"
  unfolding poll_status_def
  using notify_if_license_inactive_alert [of w st] assms
  by (simp add: notify_server_status_frame)

text \<open>The two outcomes of \<open>get_data\<close> once the token is found.\<close>

lemma get_data_login_failed:
  assumes "login_page s = Token t" and "\<not> login_successful s"
  shows "get_data s = (Inr None, [LoginFailed, RawResponse (text_r (login_post s))])"
  using assms by (auto simp: get_data_def login_successful_def Let_def)

lemma get_data_logged_in:
  assumes "login_page s = Token t" and "login_successful s"
  shows "fst (get_data s) =
      Inr (Some \<lparr>dashboard = payload (dashboard_get s) (JObj []),
                 servers = payload (servers_get s) (JArr [])\<rparr>)"
  using assms
  by (auto simp: get_data_def login_successful_def payload_def Let_def split: option.splits)









lemma call_get_data_prev:
  "call_get_data w (st\<lparr>prev_server_statuses := m\<rparr>) =
     (fst (call_get_data w st), (snd (call_get_data w st))\<lparr>prev_server_statuses := m\<rparr>)"
  by (simp add: call_get_data_def split: prod.splits)

lemma send_report_cases:
  "send_report c w st = (fst (send_report c w st), snd (call_get_data w st)) \<or>
   (\<exists>ps. send_report c w st = (Inr (), send_message c (Report ps) (snd (call_get_data w st))))"
proof -
  obtain r st1 where e: "call_get_data w st = (r, st1)" by (cases "call_get_data w st")
  show ?thesis
    unfolding send_report_def e
    by (auto split: sum.splits option.splits)
qed

section \<open>The Status Differ\<close>

text \<open>
  C1. Whatever the previous StatusMap, when the fetch brings a list \<open>current\<close> of
  server records, \<open>notify_server_status\<close> raises nothing and sends to the
  notification channel, in the order of \<open>current\<close>, exactly the alerts of the rule:
  for a server whose name is in the previous map with a different health_status, one
  \<open>Degraded\<close> alert carrying the new status when that status is not "online" and one
  \<open>Recovered\<close> alert when it is; for a server whose name is not in the previous map,
  or whose health_status is the one recorded there, nothing.
\<close>

theorem status_differ_alerts:
  assumes "fst (get_data (w (fetches st))) = Inr (Some d)"
    and "py_iter (servers d) = Inr current"
    and "list_all server_record current"
  shows "fst (notify_server_status w st) = Inr () \<and>
         emitted st (snd (notify_server_status w st)) =
           map (Pair (telegram_chat_id st))
             (concat (map (spec_alerts (prev_server_statuses st)) current))"
  using notify_server_status_records [of w st d current] assms by (simp add: emitted_def)

theorem status_differ_alerts_witness:
  "list_all server_record
     [server ''A'' ''offline'', server ''B'' ''online'', server ''C'' ''online'',
      server ''D'' ''busy''] \<and>
   emitted (watching [JStr ''A'' \<mapsto> JStr ''online'', JStr ''B'' \<mapsto> JStr ''offline'',
                       JStr ''C'' \<mapsto> JStr ''online''])
     (snd (notify_server_status
        (\<lambda>n. site_up ''Active''
           [server ''A'' ''offline'', server ''B'' ''online'', server ''C'' ''online'',
            server ''D'' ''busy''])
        (watching [JStr ''A'' \<mapsto> JStr ''online'', JStr ''B'' \<mapsto> JStr ''offline'',
                   JStr ''C'' \<mapsto> JStr ''online'']))) =
     [(7, Degraded (JStr ''A'') (JStr ''offline'')),
      (7, Recovered (JStr ''B'') (JStr ''online''))]"
proof -
  let ?cur = "[server ''A'' ''offline'', server ''B'' ''online'', server ''C'' ''online'',
      server ''D'' ''busy'']"
  let ?w = "\<lambda>n::nat. site_up ''Active'' ?cur"
  let ?st = "watching [JStr ''A'' \<mapsto> JStr ''online'', JStr ''B'' \<mapsto> JStr ''offline'',
                       JStr ''C'' \<mapsto> JStr ''online'']"
  have 1: "fst (get_data (?w (fetches ?st))) =
      Inr (Some \<lparr>dashboard = stats ''Active'', servers = JArr ?cur\<rparr>)"
    by (simp add: get_data_def site_up_def site_in_def answer_def ok_def)
  have 2: "py_iter (servers \<lparr>dashboard = stats ''Active'', servers = JArr ?cur\<rparr>) = Inr ?cur"
    by simp
  have 3: "list_all server_record ?cur"
    by (simp add: server_record_def server_def)
  from status_differ_alerts [of ?w ?st _ ?cur] 1 2 3 show ?thesis
    by (simp add: spec_alerts_def py_eq_def watching_def initial_def server_def name_of_def
        health_of_def)
qed

text \<open>
  C4, as amended. When the previous StatusMap is empty and the fetch brings a list
  \<open>current\<close> of server records, \<open>notify_server_status\<close> sends no message at all, and
  the StatusMap afterwards has exactly the names of \<open>current\<close> as keys and maps each
  name to the health_status of the last server of \<open>current\<close> that bears it (the
  server's own health_status when no later server has the same name).
\<close>

theorem first_poll:
  assumes "fst (get_data (w (fetches st))) = Inr (Some d)"
    and "py_iter (servers d) = Inr current"
    and "list_all server_record current"
    and "prev_server_statuses st = Map.empty"
  shows "fst (notify_server_status w st) = Inr () \<and>
         emitted st (snd (notify_server_status w st)) = [] \<and>
         dom (prev_server_statuses (snd (notify_server_status w st))) =
           (\<lambda>s. canon (name_of s)) ` set current \<and>
         (\<forall>s \<in> set current.
            prev_server_statuses (snd (notify_server_status w st)) (canon (name_of s)) =
              Some (health_of
                (last (filter (\<lambda>t. canon (name_of t) = canon (name_of s)) current))))"
  using notify_server_status_records [of w st d current] assms
  by (simp add: emitted_def spec_alerts_empty fold_record_status_dom fold_record_status_last)

theorem first_poll_witness:
  "prev_server_statuses
     (snd (notify_server_status
        (always (site_up ''Active'' [server ''A'' ''online'', server ''B'' ''offline'',
                                      server ''A'' ''busy'']))
        initial)) (JStr ''A'') = Some (JStr ''busy'') \<and>
   emitted initial
     (snd (notify_server_status
        (always (site_up ''Active'' [server ''A'' ''online'', server ''B'' ''offline'',
                                      server ''A'' ''busy'']))
        initial)) = []"
proof -
  let ?cur = "[server ''A'' ''online'', server ''B'' ''offline'', server ''A'' ''busy'']"
  let ?w = "always (site_up ''Active'' ?cur)"
  have 1: "fst (get_data (?w (fetches initial))) =
      Inr (Some \<lparr>dashboard = stats ''Active'', servers = JArr ?cur\<rparr>)"
    by (simp add: get_data_def site_up_def site_in_def answer_def ok_def always_def)
  have 2: "py_iter (servers \<lparr>dashboard = stats ''Active'', servers = JArr ?cur\<rparr>) = Inr ?cur"
    by simp
  have 3: "list_all server_record ?cur"
    by (simp add: server_record_def server_def)
  have 4: "prev_server_statuses initial = Map.empty"
    by (simp add: initial_def)
  from first_poll [of ?w initial _ ?cur] 1 2 3 4 show ?thesis
    by (simp add: py_eq_def server_def name_of_def health_of_def)
qed

text \<open>
  C4 as first stated does not hold of a list in which a name comes twice: after a
  first poll on two servers named A, the first online and the second offline, the
  StatusMap holds "offline" for A, which is not the health_status of the first.
\<close>

theorem first_poll_counterexample:
  "list_all server_record [server ''A'' ''online'', server ''A'' ''offline''] \<and>
   dom (prev_server_statuses initial) = {} \<and>
   fst (notify_server_status
          (always (site_up ''Active'' [server ''A'' ''online'', server ''A'' ''offline'']))
          initial) = Inr () \<and>
   prev_server_statuses
     (snd (notify_server_status
        (always (site_up ''Active'' [server ''A'' ''online'', server ''A'' ''offline'']))
        initial)) (canon (name_of (server ''A'' ''online''))) = Some (JStr ''offline'') \<and>
   prev_server_statuses
     (snd (notify_server_status
        (always (site_up ''Active'' [server ''A'' ''online'', server ''A'' ''offline'']))
        initial)) (canon (name_of (server ''A'' ''online''))) \<noteq>
     Some (health_of (server ''A'' ''online''))"
  by (simp add: notify_server_status_def call_get_data_def get_data_def site_up_def
      site_in_def answer_def ok_def always_def initial_def server_def server_record_def
      name_of_def health_of_def py_eq_def send_message_def)

text \<open>
  C5. After every run of \<open>notify_server_status\<close> that fetched data and came to its
  end, the StatusMap is the mapping built from \<open>current\<close> alone, starting from the
  empty dict: its keys are exactly the names of the servers in \<open>current\<close>, so a name
  of the previous map that is absent from \<open>current\<close> is gone; and every message sent
  in the run is a \<open>Degraded\<close> or \<open>Recovered\<close> alert about a server of \<open>current\<close>, so
  nothing is sent about a dropped name.
\<close>

theorem status_map_replaced:
  assumes "fst (get_data (w (fetches st))) = Inr (Some d)"
    and "py_iter (servers d) = Inr current"
    and "fst (notify_server_status w st) = Inr ()"
  shows "prev_server_statuses (snd (notify_server_status w st)) =
           fold record_status current Map.empty \<and>
         dom (prev_server_statuses (snd (notify_server_status w st))) =
           (\<lambda>s. canon (name_of s)) ` set current \<and>
         (\<forall>cm \<in> set (emitted st (snd (notify_server_status w st))).
            \<exists>s \<in> set current.
              snd cm = Degraded (name_of s) (health_of s) \<or>
              snd cm = Recovered (name_of s) (health_of s))"
proof -
  have r: "list_all server_record current"
    using notify_server_status_Inr [of w st d current] assms by simp
  show ?thesis
    using notify_server_status_records [of w st d current] assms(1,2) r
    by (auto simp: emitted_def fold_record_status_dom dest: spec_alerts_cases)
qed

theorem status_map_replaced_witness:
  "prev_server_statuses (watching (map_of [(JStr ''A'', JStr ''online''), (JStr ''Z'', JStr ''offline'')]))
     (JStr ''Z'') = Some (JStr ''offline'') \<and>
   dom (prev_server_statuses
     (snd (notify_server_status (always (site_up ''Active'' [server ''A'' ''busy'']))
        (watching (map_of [(JStr ''A'', JStr ''online''), (JStr ''Z'', JStr ''offline'')]))))) =
     {JStr ''A''} \<and>
   emitted (watching (map_of [(JStr ''A'', JStr ''online''), (JStr ''Z'', JStr ''offline'')]))
     (snd (notify_server_status (always (site_up ''Active'' [server ''A'' ''busy'']))
        (watching (map_of [(JStr ''A'', JStr ''online''), (JStr ''Z'', JStr ''offline'')])))) =
     [(7, Degraded (JStr ''A'') (JStr ''busy''))]"
proof -
  let ?cur = "[server ''A'' ''busy'']"
  let ?w = "always (site_up ''Active'' ?cur)"
  let ?st = "watching (map_of [(JStr ''A'', JStr ''online''), (JStr ''Z'', JStr ''offline'')])"
  have 1: "fst (get_data (?w (fetches ?st))) =
      Inr (Some \<lparr>dashboard = stats ''Active'', servers = JArr ?cur\<rparr>)"
    by (simp add: get_data_def site_up_def site_in_def answer_def ok_def always_def)
  have 2: "py_iter (servers \<lparr>dashboard = stats ''Active'', servers = JArr ?cur\<rparr>) = Inr ?cur"
    by simp
  have 3: "list_all server_record ?cur"
    by (simp add: server_record_def server_def)
  have 4: "notify_server_status ?w ?st =
     (Inr (), (snd (call_get_data ?w ?st))
        \<lparr>sent := sent ?st @ map (Pair (telegram_chat_id ?st))
             (concat (map (spec_alerts (prev_server_statuses ?st)) ?cur)),
         prev_server_statuses := fold record_status ?cur Map.empty\<rparr>)"
    using notify_server_status_records [of ?w ?st _ ?cur] 1 2 3 by simp
  have 5: "fst (notify_server_status ?w ?st) = Inr ()"
    using 4 by simp
  have 6: "emitted ?st (snd (notify_server_status ?w ?st)) = [(7, Degraded (JStr ''A'') (JStr ''busy''))]"
    using 4 by (simp add: emitted_def spec_alerts_def watching_def initial_def server_def name_of_def
        health_of_def py_eq_def)
  from status_map_replaced [of ?w ?st "\<lparr>dashboard = stats ''Active'', servers = JArr ?cur\<rparr>" ?cur] 1 2 5
  have "dom (prev_server_statuses (snd (notify_server_status ?w ?st))) =
      (\<lambda>s. canon (name_of s)) ` set ?cur"
    by blast
  also have "\<dots> = {JStr ''A''}"
    by (simp add: server_def name_of_def)
  finally have 7: "dom (prev_server_statuses (snd (notify_server_status ?w ?st))) = {JStr ''A''}" .
  have 8: "prev_server_statuses ?st (JStr ''Z'') = Some (JStr ''offline'')"
    by (simp add: watching_def initial_def)
  show ?thesis
    by (intro conjI) (rule 8, rule 7, rule 6)
qed

text \<open>
  C6, as amended. Let \<open>current\<close> be a list of server records in which any two servers
  that bear the same name, a server and itself included, have health_status values
  that are equal under \<open>==\<close>: no name comes with two different statuses, and no
  health_status is NaN. When the previous StatusMap is the map that the Status Differ
  computes from \<open>current\<close>, a run on \<open>current\<close> raises nothing, sends no alert and
  leaves the StatusMap as it was.
\<close>

theorem status_differ_idempotent:
  assumes "fst (get_data (w (fetches st))) = Inr (Some d)"
    and "py_iter (servers d) = Inr current"
    and "list_all server_record current"
    and "prev_server_statuses st = fold record_status current Map.empty"
    and "\<forall>s \<in> set current. \<forall>t \<in> set current.
           canon (name_of s) = canon (name_of t) \<longrightarrow> py_eq (health_of s) (health_of t)"
  shows "fst (notify_server_status w st) = Inr () \<and>
         emitted st (snd (notify_server_status w st)) = [] \<and>
         prev_server_statuses (snd (notify_server_status w st)) = prev_server_statuses st"
proof -
  have "spec_alerts (prev_server_statuses st) s = []" if s: "s \<in> set current" for s
  proof -
    let ?same = "filter (\<lambda>t. canon (name_of t) = canon (name_of s)) current"
    from s have "?same \<noteq> []" by (auto simp: filter_empty_conv)
    then have "last ?same \<in> set ?same" by (rule last_in_set)
    then have l: "last ?same \<in> set current"
      and c: "canon (name_of (last ?same)) = canon (name_of s)"
      by simp_all
    from fold_record_status_last [OF s, of Map.empty] assms(4)
    have p: "prev_server_statuses st (canon (name_of s)) = Some (health_of (last ?same))"
      by simp
    from assms(5) l s c have "py_eq (health_of (last ?same)) (health_of s)" by blast
    with p show ?thesis by (rule spec_alerts_same)
  qed
  then have a: "concat (map (spec_alerts (prev_server_statuses st)) current) = []"
    by simp
  have m: "fold record_status current Map.empty = prev_server_statuses st"
    by (simp add: assms(4))
  show ?thesis
    using notify_server_status_records [of w st d current] assms(1,2,3)
    by (simp add: emitted_def a m)
qed

theorem status_differ_idempotent_witness:
  "list_all server_record
     [server ''A'' ''online'', server ''B'' ''offline'', server ''A'' ''online''] \<and>
   prev_server_statuses (watching [JStr ''A'' \<mapsto> JStr ''online'', JStr ''B'' \<mapsto> JStr ''offline'']) =
     fold record_status
       [server ''A'' ''online'', server ''B'' ''offline'', server ''A'' ''online''] Map.empty \<and>
   emitted (watching [JStr ''A'' \<mapsto> JStr ''online'', JStr ''B'' \<mapsto> JStr ''offline''])
     (snd (notify_server_status
        (always (site_up ''Active''
           [server ''A'' ''online'', server ''B'' ''offline'', server ''A'' ''online'']))
        (watching [JStr ''A'' \<mapsto> JStr ''online'', JStr ''B'' \<mapsto> JStr ''offline'']))) = []"
proof -
  let ?cur = "[server ''A'' ''online'', server ''B'' ''offline'', server ''A'' ''online'']"
  let ?d = "\<lparr>dashboard = stats ''Active'', servers = JArr ?cur\<rparr>"
  let ?w = "always (site_up ''Active'' ?cur)"
  let ?st = "watching [JStr ''A'' \<mapsto> JStr ''online'', JStr ''B'' \<mapsto> JStr ''offline'']"
  have 1: "fst (get_data (?w (fetches ?st))) = Inr (Some ?d)"
    by (simp add: get_data_def site_up_def site_in_def answer_def ok_def always_def)
  have 2: "py_iter (servers ?d) = Inr ?cur"
    by simp
  have 3: "list_all server_record ?cur"
    by (simp add: server_record_def server_def)
  have 4: "prev_server_statuses ?st = fold record_status ?cur Map.empty"
    by (auto simp: watching_def initial_def record_status_def server_def name_of_def
        health_of_def)
  have 5: "\<forall>s \<in> set ?cur. \<forall>t \<in> set ?cur.
      canon (name_of s) = canon (name_of t) \<longrightarrow> py_eq (health_of s) (health_of t)"
    by (simp add: server_def name_of_def health_of_def py_eq_def)
  from status_differ_idempotent [of ?w ?st ?d ?cur] 1 2 3 4 5
  have 6: "emitted ?st (snd (notify_server_status ?w ?st)) = []" by blast
  show ?thesis
    by (intro conjI) (rule 3, rule 4, rule 6)
qed

text \<open>
  C6 as first stated does not hold of every list. With two servers named A, the
  first online and the second offline, the first poll leaves the map that the Differ
  computes from the list, which holds "offline" for A; the second poll on the same
  list compares the first server with it and sends a \<open>Recovered\<close> alert, and so does
  every later poll. Nor does it hold of a health_status that is NaN: the map holds
  the very value of the record, and still \<open>!=\<close> is True and a \<open>Degraded\<close> alert goes
  out.
\<close>

theorem status_differ_idempotent_counterexample:
  "list_all server_record [server ''A'' ''online'', server ''A'' ''offline''] \<and>
   fst (notify_server_status
          (always (site_up ''Active'' [server ''A'' ''online'', server ''A'' ''offline'']))
          initial) = Inr () \<and>
   prev_server_statuses
     (snd (notify_server_status
        (always (site_up ''Active'' [server ''A'' ''online'', server ''A'' ''offline'']))
        initial)) =
     fold record_status [server ''A'' ''online'', server ''A'' ''offline''] Map.empty \<and>
   emitted
     (snd (notify_server_status
        (always (site_up ''Active'' [server ''A'' ''online'', server ''A'' ''offline'']))
        initial))
     (snd (notify_server_status
        (always (site_up ''Active'' [server ''A'' ''online'', server ''A'' ''offline'']))
        (snd (notify_server_status
           (always (site_up ''Active'' [server ''A'' ''online'', server ''A'' ''offline'']))
           initial)))) =
     [(7, Recovered (JStr ''A'') (JStr ''online''))] \<and>
   list_all server_record [JObj [(''name'', JStr ''N''), (''health_status'', JNaN 0)]] \<and>
   prev_server_statuses (watching [JStr ''N'' \<mapsto> JNaN 0]) =
     fold record_status [JObj [(''name'', JStr ''N''), (''health_status'', JNaN 0)]] Map.empty \<and>
   emitted (watching [JStr ''N'' \<mapsto> JNaN 0])
     (snd (notify_server_status
        (always (site_in (answer 200 ''http://panel/api/dashboard-stats'' None)
           (answer 200 ''http://panel/api/servers/index''
              (Some (JArr [JObj [(''name'', JStr ''N''), (''health_status'', JNaN 0)]])))))
        (watching [JStr ''N'' \<mapsto> JNaN 0]))) =
     [(7, Degraded (JStr ''N'') (JNaN 0))]"
  by (simp add: notify_server_status_def call_get_data_def get_data_def site_up_def
      site_in_def answer_def ok_def always_def initial_def watching_def server_def
      server_record_def record_status_def name_of_def health_of_def py_eq_def
      send_message_def emitted_def)

text \<open>
  C8. Whatever the StatusMap, when \<open>get_data\<close> returns its failure signal None (the
  login failed), \<open>notify_server_status\<close> returns at once: nothing is sent, the
  StatusMap keeps its value, and the state differs from the one before only by what
  the fetch itself did (its count and its printed lines).
\<close>

theorem login_failure_isolated:
  assumes "fst (get_data (w (fetches st))) = Inr None"
  shows "fst (notify_server_status w st) = Inr () \<and>
         emitted st (snd (notify_server_status w st)) = [] \<and>
         prev_server_statuses (snd (notify_server_status w st)) = prev_server_statuses st \<and>
         snd (notify_server_status w st) = snd (call_get_data w st)"
proof -
  obtain r st1 where c: "call_get_data w st = (r, st1)" by (cases "call_get_data w st")
  then have st1: "st1 = snd (call_get_data w st)" and r: "r = Inr None"
    using call_get_data_simps(1) [of w st] assms by simp_all
  show ?thesis
    unfolding notify_server_status_def c r
    by (simp add: st1 emitted_def)
qed

theorem login_failure_isolated_witness:
  "fst (get_data site_refusing) = Inr None \<and>
   fst (notify_server_status (always site_refusing)
          (watching (map_of [(JStr ''A'', JStr ''online'')]))) = Inr () \<and>
   emitted (watching (map_of [(JStr ''A'', JStr ''online'')]))
     (snd (notify_server_status (always site_refusing)
        (watching (map_of [(JStr ''A'', JStr ''online'')])))) = [] \<and>
   prev_server_statuses
     (snd (notify_server_status (always site_refusing)
        (watching (map_of [(JStr ''A'', JStr ''online'')])))) (JStr ''A'') =
     Some (JStr ''online'')"
proof -
  let ?w = "always site_refusing"
  let ?st = "watching (map_of [(JStr ''A'', JStr ''online'')])"
  have 0: "fst (get_data site_refusing) = Inr None"
    by (simp add: get_data_def site_refusing_def answer_def ok_def)
  then have 1: "fst (get_data (?w (fetches ?st))) = Inr None"
    by (simp add: always_def)
  from login_failure_isolated [of ?w ?st] 1
  have a: "fst (notify_server_status ?w ?st) = Inr ()"
    and b: "emitted ?st (snd (notify_server_status ?w ?st)) = []"
    and c: "prev_server_statuses (snd (notify_server_status ?w ?st)) = prev_server_statuses ?st"
    by blast+
  have d: "prev_server_statuses ?st (JStr ''A'') = Some (JStr ''online'')"
    by (simp add: watching_def initial_def)
  show ?thesis
    by (intro conjI) (rule 0, rule a, rule b, simp only: c d)
qed

section \<open>The license check\<close>

text \<open>
  C7. In every poll whose license check fetches a dashboard with a license status
  other than "Active", exactly one license alert is sent, and nothing is remembered
  from one poll to the next: \<open>n\<close> polls in a row that each see such a status send
  exactly \<open>n\<close> license alerts. (Each poll that gets through its license check runs
  \<open>get_data\<close> twice, so the license checks of consecutive polls meet the site at
  every second run.) The witness is three polls that see "Suspended".
\<close>

theorem license_alert_every_poll:
  assumes "\<forall>i<n. license_not_active (w (fetches st + 2 * i))"
  shows "license_alerts (run_repeating n w st) = license_alerts st + n"
  using assms
proof (induction n arbitrary: st)
  case 0
  show ?case by simp
next
  case (Suc n)
  from Suc.prems have first: "license_not_active (w (fetches st))"
    by (metis add.right_neutral mult_0_right zero_less_Suc)
  have p: "fetches (snd (poll_status w st)) = fetches st + 2 \<and>
         license_alerts (snd (poll_status w st)) = Suc (license_alerts st)"
    using poll_status_license [of w st] first by simp
  have "\<forall>i<n. license_not_active (w (fetches (snd (poll_status w st)) + 2 * i))"
  proof (intro allI impI)
    fix i assume "i < n"
    then have "Suc i < Suc n" by simp
    with Suc.prems have "license_not_active (w (fetches st + 2 * Suc i))" by blast
    then show "license_not_active (w (fetches (snd (poll_status w st)) + 2 * i))"
      using p by (simp add: add.commute add.left_commute)
  qed
  from Suc.IH [OF this] p show ?case by simp
qed

theorem license_alert_every_poll_witness:
  "license_status (site_up ''Suspended'' [server ''A'' ''online'']) = Some (JStr ''Suspended'') \<and>
   license_alerts initial = 0 \<and>
   license_alerts
     (run_repeating 3 (always (site_up ''Suspended'' [server ''A'' ''online''])) initial) = 3"
proof -
  let ?s = "site_up ''Suspended'' [server ''A'' ''online'']"
  have 1: "license_status ?s = Some (JStr ''Suspended'')"
    by (simp add: license_status_def get_data_def site_up_def site_in_def answer_def ok_def
        stats_def)
  then have 2: "license_not_active ?s"
    by (simp add: license_not_active_def py_eq_def)
  have 3: "\<forall>i<3. license_not_active (always ?s (fetches initial + 2 * i))"
    using 2 by (simp add: always_def)
  have 4: "license_alerts initial = 0"
    by (simp add: license_alerts_def initial_def)
  from license_alert_every_poll [of 3 "always ?s" initial] 3 4
  have "license_alerts (run_repeating 3 (always ?s) initial) = 3" by simp
  with 1 4 show ?thesis by blast
qed

section \<open>The Data Fetcher\<close>

text \<open>
  C3, as amended. On every site whose login page carries the CSRF token, \<open>get_data\<close>
  returns None exactly when the login fails. When the login succeeds it returns the
  composite of dashboard and servers whatever the two GETs answer: each component is
  the JSON body of its GET when that answered with status 200 and a JSON body, and
  the default otherwise, \<open>{}\<close> for the dashboard and \<open>[]\<close> for the servers.
\<close>

theorem get_data_result:
  assumes "login_page s = Token t"
  shows "fst (get_data s) =
     (if login_successful s
      then Inr (Some \<lparr>dashboard = payload (dashboard_get s) (JObj []),
                      servers = payload (servers_get s) (JArr [])\<rparr>)
      else Inr None)"
  using get_data_logged_in [of s t] get_data_login_failed [of s t] assms by simp

theorem get_data_result_witness:
  "login_page (site_up ''Active'' [server ''A'' ''online'']) = Token ''csrf'' \<and>
   well_formed (dashboard_get (site_up ''Active'' [server ''A'' ''online''])) \<and>
   well_formed (servers_get (site_up ''Active'' [server ''A'' ''online''])) \<and>
   fst (get_data (site_up ''Active'' [server ''A'' ''online''])) =
     Inr (Some \<lparr>dashboard = stats ''Active'', servers = JArr [server ''A'' ''online'']\<rparr>)"
  using get_data_result [of "site_up ''Active'' [server ''A'' ''online'']" "''csrf''"]
  by (simp add: site_up_def site_in_def answer_def login_successful_def payload_def ok_def
      well_formed_def)

text \<open>
  C3 as first stated does not hold when a GET fails after a successful login: with the
  dashboard GET answering 500 and the servers GET a body that is not JSON, \<open>get_data\<close>
  returns the composite of the two defaults, not None.
\<close>

theorem get_data_counterexample:
  "login_successful (site_in (answer 500 ''http://panel/api/dashboard-stats'' None)
                             (answer 200 ''http://panel/api/servers/index'' None)) \<and>
   \<not> well_formed (answer 500 ''http://panel/api/dashboard-stats'' None) \<and>
   \<not> well_formed (answer 200 ''http://panel/api/servers/index'' None) \<and>
   fst (get_data (site_in (answer 500 ''http://panel/api/dashboard-stats'' None)
                          (answer 200 ''http://panel/api/servers/index'' None))) =
     Inr (Some \<lparr>dashboard = JObj [], servers = JArr []\<rparr>) \<and>
   fst (get_data (site_in (answer 500 ''http://panel/api/dashboard-stats'' None)
                          (answer 200 ''http://panel/api/servers/index'' None))) \<noteq> Inr None"
  by (simp add: get_data_def site_in_def answer_def login_successful_def ok_def well_formed_def)

section \<open>Failed fetches\<close>




section \<open>The poll cycle\<close>




section \<open>The status request\<close>

text \<open>
  C10. \<open>send_report\<close> leaves the StatusMap as it was and does not read it: run from a
  state with another StatusMap it gives the same result and the same state, but for
  that map. What it sends is the formatted dashboard stats followed by the formatted
  servers info, as one \<open>Report\<close> to the chat the request came from, when \<open>get_data\<close>
  returns data that both formatters accept, and nothing otherwise: hence no
  \<open>Degraded\<close>, \<open>Recovered\<close> or license alert. When \<open>get_data\<close> returns None it raises
  nothing and sends nothing.
\<close>

theorem status_request_frame:
  "prev_server_statuses (snd (send_report c w st)) = prev_server_statuses st \<and>
   send_report c w (st\<lparr>prev_server_statuses := m\<rparr>) =
     (fst (send_report c w st), (snd (send_report c w st))\<lparr>prev_server_statuses := m\<rparr>) \<and>
   emitted st (snd (send_report c w st)) =
     (case fst (get_data (w (fetches st))) of
        Inl e \<Rightarrow> []
      | Inr None \<Rightarrow> []
      | Inr (Some d) \<Rightarrow>
          (case format_dashboard_stats (dashboard d) of
             Inl e \<Rightarrow> []
           | Inr dashboard_stats \<Rightarrow>
               (case format_servers_info (servers d) of
                  Inl e \<Rightarrow> []
                | Inr servers_info \<Rightarrow> [(c, Report (dashboard_stats @ servers_info))]))) \<and>
   (emitted st (snd (send_report c w st)) = [] \<or>
    (\<exists>ps. emitted st (snd (send_report c w st)) = [(c, Report ps)])) \<and>
   license_alerts (snd (send_report c w st)) = license_alerts st \<and>
   (fst (get_data (w (fetches st))) = Inr None \<longrightarrow>
      fst (send_report c w st) = Inr () \<and> emitted st (snd (send_report c w st)) = [])"
proof -
  obtain r st1 where e: "call_get_data w st = (r, st1)" by (cases "call_get_data w st")
  then have st1: "st1 = snd (call_get_data w st)" and r: "r = fst (get_data (w (fetches st)))"
    using call_get_data_simps(1) [of w st] by simp_all
  have 1: "prev_server_statuses (snd (send_report c w st)) = prev_server_statuses st"
    using send_report_cases [of c w st] by (cases "send_report c w st") auto
  have 2: "send_report c w (st\<lparr>prev_server_statuses := m\<rparr>) =
     (fst (send_report c w st), (snd (send_report c w st))\<lparr>prev_server_statuses := m\<rparr>)"
    unfolding send_report_def call_get_data_prev e
    by (simp add: send_message_def split: sum.splits option.splits)
  have 6: "emitted st (snd (send_report c w st)) =
     (case fst (get_data (w (fetches st))) of
        Inl e \<Rightarrow> []
      | Inr None \<Rightarrow> []
      | Inr (Some d) \<Rightarrow>
          (case format_dashboard_stats (dashboard d) of
             Inl e \<Rightarrow> []
           | Inr dashboard_stats \<Rightarrow>
               (case format_servers_info (servers d) of
                  Inl e \<Rightarrow> []
                | Inr servers_info \<Rightarrow> [(c, Report (dashboard_stats @ servers_info))])))"
    unfolding send_report_def e r [symmetric]
    by (simp add: st1 emitted_def split: sum.splits option.splits)
  have 3: "emitted st (snd (send_report c w st)) = [] \<or>
    (\<exists>ps. emitted st (snd (send_report c w st)) = [(c, Report ps)])"
    using send_report_cases [of c w st] by (cases "send_report c w st") (auto simp: emitted_def)
  have 4: "license_alerts (snd (send_report c w st)) = license_alerts st"
    using send_report_cases [of c w st] by (cases "send_report c w st") auto
  have 5: "fst (get_data (w (fetches st))) = Inr None \<longrightarrow>
      fst (send_report c w st) = Inr () \<and> emitted st (snd (send_report c w st)) = []"
    unfolding send_report_def e r [symmetric]
    by (simp add: st1 emitted_def)
  from 1 2 6 3 4 5 show ?thesis by blast
qed

theorem status_request_frame_witness:
  "fst (get_data site_refusing) = Inr None \<and>
   fst (send_report 42 (always site_refusing) (watching [JStr ''A'' \<mapsto> JStr ''online''])) =
     Inr () \<and>
   emitted (watching [JStr ''A'' \<mapsto> JStr ''online''])
     (snd (send_report 42 (always site_refusing) (watching [JStr ''A'' \<mapsto> JStr ''online'']))) =
     [] \<and>
   prev_server_statuses
     (snd (send_report 42 (always site_refusing) (watching [JStr ''A'' \<mapsto> JStr ''online''])))
     (JStr ''A'') = Some (JStr ''online'')"
proof -
  let ?w = "always site_refusing"
  let ?st = "watching [JStr ''A'' \<mapsto> JStr ''online'']"
  have 0: "fst (get_data site_refusing) = Inr None"
    by (simp add: get_data_def site_refusing_def answer_def ok_def)
  then have 1: "fst (get_data (?w (fetches ?st))) = Inr None"
    by (simp add: always_def)
  from status_request_frame [of 42 ?w ?st] 1
  have a: "fst (send_report 42 ?w ?st) = Inr ()"
    and b: "emitted ?st (snd (send_report 42 ?w ?st)) = []"
    and c: "prev_server_statuses (snd (send_report 42 ?w ?st)) = prev_server_statuses ?st"
    by blast+
  have d: "prev_server_statuses ?st (JStr ''A'') = Some (JStr ''online'')"
    by (simp add: watching_def initial_def)
  show ?thesis
    by (intro conjI) (rule 0, rule a, rule b, simp only: c d)
qed

end
